theory Spec2Isabelle
  imports Complex_Main
begin

text \<open>
  The streaming client of the code generator: \<open>generateCodeFromPrompt\<close> of
  \<open>src/services/api.ts\<close>, which reads a stream of \<open>data: <json>\<close> lines and builds
  the map from filenames to contents, and \<open>handleDownload\<close> of the preview
  component, which packs the generated files into an archive.
\<close>

section \<open>Strings and the string methods the code calls\<close>

text \<open>
  A JavaScript string is a sequence of code units. The model writes it as a
  \<^typ>\<open>string\<close>, which covers the code units below 256; every literal the
  code compares against (\<open>'\n'\<close>, \<open>'data: '\<close>, \<open>'//'\<close>, \<open>'/'\<close>,
  \<open>'typescript'\<close>, \<open>'status.log'\<close>) lies in that range.
\<close>

definition newline :: char where
  "newline = CHR 0x0A"

text \<open>
  \<open>String.prototype.trim\<close> removes white space and line terminators from both
  ends. In the range of \<^typ>\<open>char\<close> these are TAB, LF, VT, FF, CR, SP and NBSP.
\<close>

definition isWhiteSpace :: "char \<Rightarrow> bool" where
  "isWhiteSpace c =
     (c = CHR 0x09 \<or> c = CHR 0x0A \<or> c = CHR 0x0B \<or> c = CHR 0x0C \<or>
      c = CHR 0x0D \<or> c = CHR 0x20 \<or> c = CHR 0xA0)"

definition trim :: "string \<Rightarrow> string" where
  "trim s = rev (dropWhile isWhiteSpace (rev (dropWhile isWhiteSpace s)))"

text \<open>\<open>s.startsWith(p)\<close>\<close>

definition startsWith :: "string \<Rightarrow> string \<Rightarrow> bool" where
  "startsWith s p = (take (length p) s = p)"

text \<open>
  \<open>s.split(c)\<close> for a one-character separator: the pieces between the
  separators, in order. The result is never empty: \<open>''.split('\n')\<close> is \<open>['']\<close>.
\<close>

fun split :: "char \<Rightarrow> string \<Rightarrow> string list" where
  "split c [] = [[]]"
| "split c (x # xs) =
     (if x = c then [] # split c xs
      else (case split c xs of
              [] \<Rightarrow> [[x]]
            | l # ls \<Rightarrow> (x # l) # ls))"

text \<open>\<open>parts.join(sep)\<close>\<close>

fun join :: "string \<Rightarrow> string list \<Rightarrow> string" where
  "join sep [] = []"
| "join sep [x] = x"
| "join sep (x # y # ys) = x @ sep @ join sep (y # ys)"

text \<open>
  \<open>lines.pop()\<close> removes the last element of the array and returns it
  (\<open>undefined\<close>, here \<open>None\<close>, on an empty array).
\<close>

definition pop :: "'a list \<Rightarrow> 'a option \<times> 'a list" where
  "pop xs = (if xs = [] then (None, []) else (Some (last xs), butlast xs))"

text \<open>\<open>filename.replace(/^\//, '')\<close>: one leading slash is removed, if there is one.\<close>

fun replaceLeadingSlash :: "string \<Rightarrow> string" where
  "replaceLeadingSlash [] = []"
| "replaceLeadingSlash (c # rest) = (if c = CHR ''/'' then rest else c # rest)"


section \<open>JSON values\<close>

text \<open>
  What \<open>JSON.parse\<close> and \<open>response.json()\<close> produce. The code never computes with
  a number; only whether it is zero matters (truthiness), so a number is carried as
  its value. An object is the list of its own properties.
\<close>

datatype json =
    JNull
  | JBool bool
  | JNum rat
  | JString string
  | JArray "json list"
  | JObject "(string \<times> json) list"

text \<open>
  \<open>JSON.parse\<close> is a built-in, not code of this repository: the model takes it as a
  parameter. \<open>None\<close> stands for the \<open>SyntaxError\<close> it throws on text that is not JSON.
\<close>

type_synonym jsonParse = "string \<Rightarrow> json option"

text \<open>
  Reading the property \<open>k\<close> of a parsed value that is not \<open>null\<close>, for the
  names \<open>code\<close>, \<open>file\<close> and \<open>detail\<close> the code reads: only an object can have
  them; on a string, number, boolean or array the result is \<open>undefined\<close> (\<open>None\<close>).
\<close>

fun getProp :: "json \<Rightarrow> string \<Rightarrow> json option" where
  "getProp (JObject kvs) k = map_of kvs k"
| "getProp _ k = None"

text \<open>The values that count as true in \<open>a || b\<close>.\<close>

fun truthy :: "json \<Rightarrow> bool" where
  "truthy JNull = False"
| "truthy (JBool b) = b"
| "truthy (JNum x) = (x \<noteq> 0)"
| "truthy (JString s) = (s \<noteq> [])"
| "truthy (JArray xs) = True"
| "truthy (JObject kvs) = True"


section \<open>The data model of \<open>api.ts\<close>\<close>

record GeneratedFile =
  filename :: string
  content :: string

record GenerationResponse =
  files :: "GeneratedFile list"
  preview_url :: "string option"

text \<open>
  What the function throws. \<open>new Error(message)\<close> with a string is \<open>Error message\<close>.
  When the value handed to the constructor is no string, the constructor converts it
  with JavaScript's \<open>ToString\<close> (\<open>true\<close>, the decimal text of a number,
  \<open>[object Object]\<close>, the joined elements of an array, or a \<open>TypeError\<close> where
  the conversion fails). The model does not compute this conversion:
  \<open>ErrorOfValue v\<close> stands for what \<open>throw new Error(v)\<close> throws for such a \<open>v\<close>,
  and says nothing about its message.
\<close>

datatype error = Error string | ErrorOfValue json

text \<open>
  The \<open>Map<string, string>\<close> named \<open>files\<close>. A JavaScript \<open>Map\<close> iterates in
  insertion order and \<open>set\<close> on a key that is present replaces the value in place.
\<close>

type_synonym FileTable = "(string \<times> string) list"

fun mapSet :: "FileTable \<Rightarrow> string \<Rightarrow> string \<Rightarrow> FileTable" where
  "mapSet [] k v = [(k, v)]"
| "mapSet ((k', v') # m) k v =
     (if k' = k then (k, v) # m else (k', v') # mapSet m k v)"

definition mapGet :: "FileTable \<Rightarrow> string \<Rightarrow> string option" where
  "mapGet m k = map_of m k"

text \<open>
  The state of the streaming loop: the \<open>files\<close> map and the snapshots handed to
  \<open>onProgress\<close> so far, oldest first (the snapshots are built whether or not the
  caller passed a callback).
\<close>

record Acc =
  table :: FileTable
  emitted :: "GeneratedFile list list"

text \<open>
  \<open>Array.from(files.entries()).map(([filename, content]) => ({filename:
  filename.replace(/^\//, ''), content}))\<close>, at lines 88-93 and again at 107-112.
\<close>

definition toGeneratedFiles :: "FileTable \<Rightarrow> GeneratedFile list" where
  "toGeneratedFiles m =
     map (\<lambda>(k, v). \<lparr>filename = replaceLeadingSlash k, content = v\<rparr>) m"


section \<open>One protocol line\<close>

definition parseFailure :: error where
  "parseFailure = Error ''Failed to parse server response''"

text \<open>
  Lines 63-68: the line is trimmed; it is skipped (\<open>continue\<close>, here \<open>None\<close>) unless
  the trimmed line starts with \<open>'data: '\<close> and something is left after
  \<open>slice(5).trim()\<close>. Otherwise that remainder goes to \<open>JSON.parse\<close>.
\<close>

definition dataPayload :: "string \<Rightarrow> string option" where
  "dataPayload line =
     (let trimmedLine = trim line in
      if trimmedLine = [] \<or> \<not> startsWith trimmedLine ''data: '' then None
      else (let jsonStr = trim (drop 5 trimmedLine) in
            if jsonStr = [] then None else Some jsonStr))"

text \<open>
  \<open>chunk.code.split('\n')[0]\<close>. The array \<open>split\<close> returns is never empty, so the
  element is a string; for an empty array the model gives the empty string, which
  is as falsy as the \<open>undefined\<close> JavaScript would give.
\<close>

definition firstLineOf :: "string \<Rightarrow> string" where
  "firstLineOf code = (case split newline code of [] \<Rightarrow> [] | l # ls \<Rightarrow> l)"

text \<open>The test \<open>firstLine && firstLine.startsWith('//')\<close>.\<close>

definition hasFilenameComment :: "string \<Rightarrow> bool" where
  "hasFilenameComment code =
     (let firstLine = firstLineOf code in firstLine \<noteq> [] \<and> startsWith firstLine ''//'')"

text \<open>
  Lines 82-96, for a filename that is a string: the content after the first line of
  \<open>code\<close> is appended to the entry, and \<open>onProgress\<close> receives the new snapshot.
\<close>

definition accumulate :: "Acc \<Rightarrow> string \<Rightarrow> string \<Rightarrow> Acc" where
  "accumulate acc name code =
     (let currentContent = (case mapGet (table acc) name of None \<Rightarrow> [] | Some c \<Rightarrow> c);
          newContent = join [newline] (drop 1 (split newline code));
          files' = mapSet (table acc) name (currentContent @ newContent)
      in \<lparr>table = files', emitted = emitted acc @ [toGeneratedFiles files']\<rparr>)"

text \<open>
  Lines 70-96 for one parsed value. TypeScript's \<open>CodeChunkResponse\<close> is erased at
  run time, so the value can be any JSON. The catch block turns every exception into
  \<open>parseFailure\<close>:
  \<^item> \<open>chunk.file\<close> throws when \<open>chunk\<close> is \<open>null\<close>;
  \<^item> \<open>chunk.code.split\<close> throws unless \<open>chunk.code\<close> is a string;
  \<^item> when the filename comes from \<open>chunk.file\<close> and is not a string, the entry is
    stored under that key and \<open>filename.replace\<close> throws while the snapshot is built,
    before \<open>onProgress\<close> is called; the map is local and is dropped with the throw.
  So the keys of the map are strings whenever the loop goes on.
\<close>

definition applyChunk :: "Acc \<Rightarrow> json \<Rightarrow> error + Acc" where
  "applyChunk acc chunk =
     (case chunk of
        JNull \<Rightarrow> Inl parseFailure
      | _ \<Rightarrow>
        (let file = getProp chunk ''file'' in
         case getProp chunk ''code'' of
           Some (JString code) \<Rightarrow>
             (if hasFilenameComment code then
                Inr (accumulate acc (trim (drop 2 (firstLineOf code))) code)
              else if file = Some (JString ''typescript'') then Inr acc
              else (case file of
                      Some (JString name) \<Rightarrow> Inr (accumulate acc name code)
                    | _ \<Rightarrow> Inl parseFailure))
         | _ \<Rightarrow> Inl parseFailure))"

text \<open>The body of the \<open>for\<close> loop, lines 63-100.\<close>

definition processLine :: "jsonParse \<Rightarrow> Acc \<Rightarrow> string \<Rightarrow> error + Acc" where
  "processLine parse acc line =
     (case dataPayload line of
        None \<Rightarrow> Inr acc
      | Some jsonStr \<Rightarrow>
          (case parse jsonStr of
             None \<Rightarrow> Inl parseFailure
           | Some chunk \<Rightarrow> applyChunk acc chunk))"

text \<open>
  The \<open>for (const line of lines)\<close> loop. A throw ends the whole function; the error is
  returned with the calls \<open>onProgress\<close> had received by then.
\<close>

fun processLines ::
  "jsonParse \<Rightarrow> Acc \<Rightarrow> string list \<Rightarrow> (error \<times> GeneratedFile list list) + Acc" where
  "processLines parse acc [] = Inr acc"
| "processLines parse acc (line # rest) =
     (case processLine parse acc line of
        Inl e \<Rightarrow> Inl (e, emitted acc)
      | Inr acc' \<Rightarrow> processLines parse acc' rest)"


section \<open>The read loop and the whole function\<close>

text \<open>
  Lines 58-60: \<open>buffer += decoded; lines = buffer.split('\n'); buffer = lines.pop() || ''\<close>.
  A fragment is the text \<open>decoder.decode(value, {stream: true})\<close> returns for one read.
\<close>

definition decodeFragment :: "string \<Rightarrow> string \<Rightarrow> string list \<times> string" where
  "decodeFragment buffer fragment =
     (let (popped, lines) = pop (split newline (buffer @ fragment))
      in (lines, (case popped of None \<Rightarrow> [] | Some l \<Rightarrow> l)))"

text \<open>
  The \<open>while (true)\<close> loop over the reads of a stream that ends: the list holds the
  fragments read before \<open>done\<close>. Left out: a read that rejects (a network failure),
  an \<open>onProgress\<close> that throws, and \<open>reader.releaseLock()\<close> in the \<open>finally\<close>
  block, which changes neither the result nor the callbacks.
\<close>

fun readLoop ::
  "jsonParse \<Rightarrow> Acc \<Rightarrow> string \<Rightarrow> string list \<Rightarrow> (error \<times> GeneratedFile list list) + Acc" where
  "readLoop parse acc buffer [] = Inr acc"
| "readLoop parse acc buffer (fragment # rest) =
     (case decodeFragment buffer fragment of
        (lines, buffer') \<Rightarrow>
          (case processLines parse acc lines of
             Inl e \<Rightarrow> Inl e
           | Inr acc' \<Rightarrow> readLoop parse acc' buffer' rest))"

text \<open>
  The lines the loop hands to the \<open>for\<close> loop over all its iterations, and the buffer
  left at the end, leaving the processing out.
\<close>

fun decodeAll :: "string \<Rightarrow> string list \<Rightarrow> string list \<times> string" where
  "decodeAll buffer [] = ([], buffer)"
| "decodeAll buffer (fragment # rest) =
     (case decodeFragment buffer fragment of
        (lines, buffer') \<Rightarrow>
          (case decodeAll buffer' rest of
             (later, final) \<Rightarrow> (lines @ later, final)))"

text \<open>
  The response of \<open>fetch\<close>: \<open>jsonBody\<close> is what \<open>response.json()\<close> resolves to
  (\<open>None\<close> when it rejects), \<open>body\<close> the fragments of the body stream (\<open>None\<close> when
  \<open>response.body\<close> is null).
\<close>

record Response =
  ok :: bool
  statusText :: string
  jsonBody :: "json option"
  body :: "string list option"

text \<open>
  \<open>new Error(errorData?.detail || `Failed to generate code: ${response.statusText}`)\<close>
\<close>

definition httpError :: "Response \<Rightarrow> error" where
  "httpError response =
     (let fallback = Error (''Failed to generate code: '' @ statusText response);
          detail = (case jsonBody response of
                      None \<Rightarrow> None
                    | Some JNull \<Rightarrow> None
                    | Some errorData \<Rightarrow> getProp errorData ''detail'')
      in case detail of
           None \<Rightarrow> fallback
         | Some d \<Rightarrow>
             if truthy d
             then (case d of JString message \<Rightarrow> Error message | _ \<Rightarrow> ErrorOfValue d)
             else fallback)"

definition initialAcc :: Acc where
  "initialAcc = \<lparr>table = [], emitted = []\<rparr>"

text \<open>
  The result: the thrown error or the returned \<open>GenerationResponse\<close>, each with the
  sequence of snapshots \<open>onProgress\<close> was called with.
\<close>

definition generateCodeFromPrompt ::
  "jsonParse \<Rightarrow> Response \<Rightarrow>
     (error \<times> GeneratedFile list list) + (GenerationResponse \<times> GeneratedFile list list)" where
  "generateCodeFromPrompt parse response =
     (if \<not> ok response then Inl (httpError response, [])
      else (case body response of
              None \<Rightarrow> Inl (Error ''No response body received'', [])
            | Some fragments \<Rightarrow>
                (case readLoop parse initialAcc [] fragments of
                   Inl e \<Rightarrow> Inl e
                 | Inr acc \<Rightarrow>
                     Inr (\<lparr>files = toGeneratedFiles (table acc), preview_url = None\<rparr>,
                          emitted acc))))"


section \<open>Archive export (\<open>handleDownload\<close>)\<close>

text \<open>
  \<open>JSZip\<close> (version 3) is a library. A \<open>JSZip\<close> object keeps a table from entry
  names to entries; an entry is a file with its content or a folder.
\<close>

datatype zipEntry = FileEntry string | FolderEntry

type_synonym zipFiles = "string \<rightharpoonup> zipEntry"

text \<open>The library's \<open>forceTrailingSlash\<close>: the path with a \<open>/\<close> at its end.\<close>

definition forceTrailingSlash :: "string \<Rightarrow> string" where
  "forceTrailingSlash path =
     (if path \<noteq> [] \<and> last path = CHR ''/'' then path else path @ ''/'')"

text \<open>\<open>path.lastIndexOf(c)\<close>, with \<open>None\<close> for \<open>-1\<close>.\<close>

definition lastIndexOf :: "char \<Rightarrow> string \<Rightarrow> nat option" where
  "lastIndexOf c path =
     (case dropWhile (\<lambda>x. x \<noteq> c) (rev path) of
        [] \<Rightarrow> None
      | x # earlier \<Rightarrow> Some (length earlier))"

text \<open>
  The library's \<open>parentFolder\<close>: the path up to its last \<open>/\<close>, a \<open>/\<close> at the very
  end not counted; empty when there is no such \<open>/\<close> or it is the first character.
\<close>

definition parentFolder :: "string \<Rightarrow> string" where
  "parentFolder path =
     (let p = (if path \<noteq> [] \<and> last path = CHR ''/'' then butlast path else path)
      in case lastIndexOf (CHR ''/'') p of
           None \<Rightarrow> []
         | Some lastSlash \<Rightarrow> if 0 < lastSlash then take lastSlash p else [])"

text \<open>
  The library's \<open>folderAdd\<close>, with folders created for the parents (the default): if
  the table has no entry of the folder's name, the folder's own parent is added first
  and then the folder; an entry that is there is left as it is.
\<close>

function folderAdd :: "zipFiles \<Rightarrow> string \<Rightarrow> zipFiles" where
  "folderAdd z name =
     (let folder = forceTrailingSlash name in
      if z folder \<noteq> None then z
      else (let parent = parentFolder folder in
            (if parent = [] then z else folderAdd z parent)(folder \<mapsto> FolderEntry)))"
  by pat_completeness auto

termination folderAdd
proof (relation "measure (\<lambda>(z, name). length name)")
  show "wf (measure (\<lambda>(z, name). length name))" by simp
next
  fix z :: zipFiles and name folder parent :: string
  assume f: "folder = forceTrailingSlash name"
    and p: "parent = parentFolder folder"
    and ne: "parent \<noteq> []"
  let ?p = "butlast folder"
  have fl: "folder \<noteq> [] \<and> last folder = CHR ''/''"
    using f by (simp add: forceTrailingSlash_def)
  have lp: "length ?p \<le> length name"
    using f by (simp add: forceTrailingSlash_def)
  from p ne fl obtain i where i: "lastIndexOf (CHR ''/'') ?p = Some i" and t: "parent = take i ?p"
    by (auto simp: parentFolder_def Let_def split: option.splits if_splits)
  from i obtain x earlier where d: "dropWhile (\<lambda>x. x \<noteq> CHR ''/'') (rev ?p) = x # earlier"
    and ib: "i = length earlier"
    by (auto simp: lastIndexOf_def split: list.splits)
  have "length (dropWhile (\<lambda>x. x \<noteq> CHR ''/'') (rev ?p)) \<le> length (rev ?p)"
    by (rule length_dropWhile_le)
  with d ib have "i < length ?p" by simp
  with t lp have "length parent < length name" by simp
  then show "((z, parent), (z, name)) \<in> measure (\<lambda>(z, name). length name)" by simp
qed

declare folderAdd.simps [simp del]

text \<open>
  \<open>zip.file(name, data)\<close> with a string: the parent folder is added, then the table
  gets the file under \<open>name\<close>, in place of whatever entry had that name.
\<close>

definition zipFile :: "zipFiles \<Rightarrow> string \<Rightarrow> string \<Rightarrow> zipFiles" where
  "zipFile z name data =
     (let parent = parentFolder name in
      (if parent = [] then z else folderAdd z parent)(name \<mapsto> FileEntry data))"

text \<open>
  \<open>zip.generateAsync\<close> writes the entries of the table through \<open>forEach\<close>, which
  passes over an entry whose name is empty. The result is the archive as the map from
  the names of its entries to the entries. The encoding of a content as UTF-8 and the
  compression are not modelled: an entry holds the content string.
\<close>

definition generateAsync :: "zipFiles \<Rightarrow> zipFiles" where
  "generateAsync z = (\<lambda>name. if name = [] then None else z name)"

text \<open>
  \<open>handleDownload\<close>, up to the archive it builds; offering it for download as
  \<open>generated-code.zip\<close> is left out.
\<close>

definition handleDownload :: "GeneratedFile list \<Rightarrow> zipFiles" where
  "handleDownload fs =
     generateAsync
       (fold (\<lambda>file z. if filename file \<noteq> ''status.log''
                         then zipFile z (filename file) (content file) else z)
             fs Map.empty)"


section \<open>The shape the code expects, and the payloads it rejects\<close>

text \<open>
  \<open>interface CodeChunkResponse { code: string; file: string }\<close>: the shape the
  source declares for a parsed payload.
\<close>

definition isCodeChunkResponse :: "json \<Rightarrow> bool" where
  "isCodeChunkResponse v =
     (case (getProp v ''code'', getProp v ''file'') of
        (Some (JString c), Some (JString f)) \<Rightarrow> True
      | _ \<Rightarrow> False)"

text \<open>
  The payloads on which the \<open>try\<close> block throws: text that \<open>JSON.parse\<close> refuses,
  a value whose \<open>code\<close> is not a string, and a value whose \<open>file\<close> is not a
  string while the first line of \<open>code\<close> is no filename comment.
\<close>

definition rejectedPayload :: "jsonParse \<Rightarrow> string \<Rightarrow> bool" where
  "rejectedPayload parse jsonStr =
     (case parse jsonStr of
        None \<Rightarrow> True
      | Some chunk \<Rightarrow>
          (case getProp chunk ''code'' of
             Some (JString code) \<Rightarrow>
               \<not> hasFilenameComment code \<and>
               (case getProp chunk ''file'' of
                  Some (JString name) \<Rightarrow> False
                | _ \<Rightarrow> True)
           | _ \<Rightarrow> True))"


section \<open>Example inputs\<close>

definition backslash :: char where
  "backslash = CHR 0x5C"

text \<open>\<^verbatim>\<open>{"code":"// App.tsx\nconst x=1;","file":"typescript"}\<close>\<close>

definition payloadMarker :: string where
  \<open>payloadMarker =
     ''{"code":"// App.tsx'' @ [backslash, CHR ''n''] @ ''const x=1;","file":"typescript"}''\<close>

text \<open>\<^verbatim>\<open>{"code":"const y=2;","file":"typescript"}\<close>\<close>

definition payloadTypescript :: string where
  \<open>payloadTypescript = ''{"code":"const y=2;","file":"typescript"}''\<close>

text \<open>\<^verbatim>\<open>{"code":"const a=1;\nconst b=2;","file":"src/a.ts"}\<close>\<close>

definition payloadNoMarker :: string where
  \<open>payloadNoMarker =
     ''{"code":"const a=1;'' @ [backslash, CHR ''n''] @ ''const b=2;","file":"src/a.ts"}''\<close>

text \<open>\<^verbatim>\<open>{"code":"// a.ts\nlet z;"}\<close>\<close>

definition payloadNoFile :: string where
  \<open>payloadNoFile = ''{"code":"// a.ts'' @ [backslash, CHR ''n''] @ ''let z;"}''\<close>

text \<open>\<^verbatim>\<open>{"code":"// /src/App.tsx\nexport {};","file":"typescript"}\<close>\<close>

definition payloadSlash :: string where
  \<open>payloadSlash =
     ''{"code":"// /src/App.tsx'' @ [backslash, CHR ''n''] @ ''export {};","file":"typescript"}''\<close>

text \<open>\<^verbatim>\<open>{"code":"// /App.tsx\nimport React;","file":"typescript"}\<close>\<close>

definition payloadSlashApp :: string where
  \<open>payloadSlashApp =
     ''{"code":"// /App.tsx'' @ [backslash, CHR ''n''] @ ''import React;","file":"typescript"}''\<close>

text \<open>\<^verbatim>\<open>{"code":"//\nlet q;","file":"typescript"}\<close>\<close>

definition payloadEmptyName :: string where
  \<open>payloadEmptyName =
     ''{"code":"//'' @ [backslash, CHR ''n''] @ ''let q;","file":"typescript"}''\<close>

text \<open>\<^verbatim>\<open>{"code":\<close>, cut off: not JSON.\<close>

definition payloadMalformed :: string where
  \<open>payloadMalformed = ''{"code":''\<close>

text \<open>
  What \<open>JSON.parse\<close> returns on the seven JSON texts above; on \<open>payloadMalformed\<close>
  it throws. The function stands for \<open>JSON.parse\<close> on these eight texts only.
\<close>

definition exampleParse :: jsonParse where
  "exampleParse s =
     (if s = payloadMarker then
        Some (JObject [(''code'', JString (''// App.tsx'' @ [newline] @ ''const x=1;'')),
                       (''file'', JString ''typescript'')])
      else if s = payloadTypescript then
        Some (JObject [(''code'', JString ''const y=2;''), (''file'', JString ''typescript'')])
      else if s = payloadNoMarker then
        Some (JObject [(''code'', JString (''const a=1;'' @ [newline] @ ''const b=2;'')),
                       (''file'', JString ''src/a.ts'')])
      else if s = payloadNoFile then
        Some (JObject [(''code'', JString (''// a.ts'' @ [newline] @ ''let z;''))])
      else if s = payloadSlash then
        Some (JObject [(''code'', JString (''// /src/App.tsx'' @ [newline] @ ''export {};'')),
                       (''file'', JString ''typescript'')])
      else if s = payloadSlashApp then
        Some (JObject [(''code'', JString (''// /App.tsx'' @ [newline] @ ''import React;'')),
                       (''file'', JString ''typescript'')])
      else if s = payloadEmptyName then
        Some (JObject [(''code'', JString (''//'' @ [newline] @ ''let q;'')),
                       (''file'', JString ''typescript'')])
      else None)"

text \<open>A response with a success status whose body arrives as the given fragments.\<close>

definition okResponse :: "string list \<Rightarrow> Response" where
  "okResponse fragments =
     \<lparr>ok = True, statusText = ''OK'', jsonBody = None, body = Some fragments\<rparr>"


section \<open>Facts about \<open>split\<close> and \<open>join\<close>\<close>

lemma split_ne: "split c s \<noteq> []"
  by (induction s) (auto split: list.splits)

lemma split_append:
  "split c (s @ t) = butlast (split c s) @ split c (last (split c s) @ t)"
proof (induction s)
  case Nil
  show ?case by simp
next
  case (Cons x xs)
  show ?case
  proof (cases "x = c")
    case True
    then show ?thesis using Cons split_ne[of c xs] by simp
  next
    case False
    obtain l ls where sp: "split c xs = l # ls"
      using split_ne[of c xs] by (cases "split c xs") auto
    show ?thesis
    proof (cases ls)
      case Nil
      then show ?thesis using False sp Cons by simp
    next
      case (Cons a as)
      then show ?thesis using False sp Cons.IH by simp
    qed
  qed
qed

lemma join_split: "join [c] (split c s) = s"
proof (induction s)
  case Nil
  show ?case by simp
next
  case (Cons x xs)
  obtain l ls where sp: "split c xs = l # ls"
    using split_ne[of c xs] by (cases "split c xs") auto
  show ?case using Cons sp by (cases ls) auto
qed

lemma split_no_sep: "c \<notin> set s \<Longrightarrow> split c s = [s]"
  by (induction s) auto

lemma last_split_no_sep: "c \<notin> set (last (split c s))"
proof (induction s)
  case Nil
  show ?case by simp
next
  case (Cons x xs)
  obtain l ls where sp: "split c xs = l # ls"
    using split_ne[of c xs] by (cases "split c xs") auto
  show ?case using Cons sp by (cases ls) auto
qed

lemma split_sep_Cons: "c \<notin> set l \<Longrightarrow> split c (l @ c # s) = l # split c s"
  by (induction l) auto


section \<open>The read loop only depends on the text, not on how it is cut\<close>

lemma decodeFragment_eq:
  "decodeFragment b f =
     (butlast (split newline (b @ f)), last (split newline (b @ f)))"
  by (simp add: decodeFragment_def pop_def split_ne)

lemma decodeAll_eq:
  "newline \<notin> set b \<Longrightarrow>
   decodeAll b fs =
     (butlast (split newline (b @ concat fs)), last (split newline (b @ concat fs)))"
proof (induction fs arbitrary: b)
  case Nil
  then show ?case by (simp add: split_no_sep)
next
  case (Cons f fs)
  let ?b' = "last (split newline (b @ f))"
  have nb: "newline \<notin> set ?b'" by (rule last_split_no_sep)
  have sp: "split newline (b @ f @ concat fs) =
        butlast (split newline (b @ f)) @ split newline (?b' @ concat fs)"
    using split_append[of newline "b @ f" "concat fs"] by simp
  show ?case
    using Cons.IH[OF nb] sp split_ne[of newline "?b' @ concat fs"]
    by (simp add: decodeFragment_eq butlast_append)
qed

lemma processLines_append:
  "processLines p acc (xs @ ys) =
     (case processLines p acc xs of
        Inl e \<Rightarrow> Inl e
      | Inr acc' \<Rightarrow> processLines p acc' ys)"
  by (induction xs arbitrary: acc) (auto split: sum.splits)

lemma readLoop_decodeAll:
  "readLoop p acc b fs = processLines p acc (fst (decodeAll b fs))"
proof (induction fs arbitrary: acc b)
  case Nil
  show ?case by simp
next
  case (Cons f fs)
  show ?case
    by (auto simp: processLines_append Cons.IH split: prod.splits sum.splits)
qed

lemma last_split_terminated: "last (split c (s @ [c])) = []"
proof -
  have "split c (s @ [c]) = butlast (split c s) @ split c (last (split c s) @ [c])"
    by (rule split_append)
  also have "split c (last (split c s) @ [c]) = [last (split c s), []]"
    using split_sep_Cons[OF last_split_no_sep, of c s "[]"] by simp
  finally show ?thesis by simp
qed

lemma split_complete_partial:
  assumes "c \<notin> set trailing" and "terminated = [] \<or> last terminated = c"
  shows "split c (terminated @ trailing) = butlast (split c terminated) @ [trailing]"
proof -
  have "last (split c terminated) = []"
  proof (cases "terminated = []")
    case True then show ?thesis by simp
  next
    case False
    with assms(2) have "terminated = butlast terminated @ [c]"
      by (metis append_butlast_last_id)
    then show ?thesis using last_split_terminated[of c "butlast terminated"] by simp
  qed
  then show ?thesis
    using split_append[of c terminated trailing] split_no_sep[OF assms(1)] by simp
qed


section \<open>The callbacks follow the map\<close>

lemma applyChunk_emitted:
  "applyChunk acc chunk = Inr acc' \<Longrightarrow>
   acc' = acc \<or> emitted acc' = emitted acc @ [toGeneratedFiles (table acc')]"
  by (auto simp: applyChunk_def accumulate_def Let_def
           split: json.splits option.splits if_splits)

lemma processLine_emitted:
  "processLine p acc line = Inr acc' \<Longrightarrow>
   acc' = acc \<or> emitted acc' = emitted acc @ [toGeneratedFiles (table acc')]"
  by (auto simp: processLine_def dest: applyChunk_emitted split: option.splits)

lemma processLines_last_emitted:
  "processLines p acc ls = Inr acc' \<Longrightarrow>
   (emitted acc \<noteq> [] \<longrightarrow> last (emitted acc) = toGeneratedFiles (table acc)) \<Longrightarrow>
   (emitted acc' \<noteq> [] \<longrightarrow> last (emitted acc') = toGeneratedFiles (table acc'))"
proof (induction ls arbitrary: acc)
  case Nil
  then show ?case by simp
next
  case (Cons l ls)
  from Cons.prems(1) obtain a where a: "processLine p acc l = Inr a"
    and r: "processLines p a ls = Inr acc'"
    by (auto split: sum.splits)
  from processLine_emitted[OF a] Cons.prems(2)
  have "emitted a \<noteq> [] \<longrightarrow> last (emitted a) = toGeneratedFiles (table a)" by auto
  from Cons.IH[OF r this] show ?case .
qed


section \<open>Re-chunking of one line\<close>

text \<open>
  Claim C2. A protocol line, with the newline that ends it, may reach the loop cut
  into any number of fragments at any places. Whatever the cut, the loop decodes
  exactly that one line and is left with an empty buffer, as it does when the line
  arrives as one fragment, and it processes exactly that line. While the newline has
  not arrived, nothing is decoded and the buffer holds all the text read so far.
\<close>

theorem C2_one_line_any_fragmentation:
  assumes "newline \<notin> set line" and "concat fragments = line @ [newline]"
  shows "decodeAll [] fragments = ([line], []) \<and>
         decodeAll [] fragments = decodeAll [] [line @ [newline]] \<and>
         readLoop parse acc [] fragments = processLines parse acc [line] \<and>
         (\<forall>k. newline \<notin> set (concat (take k fragments)) \<longrightarrow>
              decodeAll [] (take k fragments) = ([], concat (take k fragments)))"
proof -
  have sp: "split newline (line @ [newline]) = [line, []]"
    using split_sep_Cons[OF assms(1), of "[]"] by simp
  have d: "decodeAll [] fragments = ([line], [])"
    using decodeAll_eq[of "[]" fragments] assms(2) sp by simp
  have d1: "decodeAll [] [line @ [newline]] = ([line], [])"
    using decodeAll_eq[of "[]" "[line @ [newline]]"] sp by simp
  have r: "readLoop parse acc [] fragments = processLines parse acc [line]"
    using readLoop_decodeAll[of parse acc "[]" fragments] d by simp
  have t: "decodeAll [] (take k fragments) = ([], concat (take k fragments))"
    if "newline \<notin> set (concat (take k fragments))" for k
    using decodeAll_eq[of "[]" "take k fragments"] split_no_sep[OF that] by simp
  show ?thesis using d d1 r t by simp
qed

theorem C2_one_line_any_fragmentation_witness:
  "newline \<notin> set ''data: {}'' \<and>
   concat [''da'', ''ta: '', ''{}'' @ [newline]] = ''data: {}'' @ [newline] \<and>
   decodeAll [] [''da'', ''ta: '', ''{}'' @ [newline]] = ([''data: {}''], []) \<and>
   decodeAll [] [''da'', ''ta: ''] = ([], ''data: '')"
proof -
  let ?fs = "[''da'', ''ta: '', ''{}'' @ [newline]]"
  have h1: "newline \<notin> set ''data: {}''" by (simp add: newline_def)
  have h2: "concat ?fs = ''data: {}'' @ [newline]" by simp
  have t2: "take 2 ?fs = [''da'', ''ta: '']" by simp
  have h3: "newline \<notin> set (concat (take 2 ?fs))"
    unfolding t2 by (simp add: newline_def)
  note c = C2_one_line_any_fragmentation[OF h1 h2, of exampleParse initialAcc]
  from c have a: "decodeAll [] ?fs = ([''data: {}''], [])" by blast
  from c h3 have "decodeAll [] (take 2 ?fs) = ([], concat (take 2 ?fs))" by blast
  then have b: "decodeAll [] [''da'', ''ta: ''] = ([], ''data: '')"
    unfolding t2 by simp
  show ?thesis using h1 h2 a b by blast
qed


section \<open>The unterminated tail at the end of the stream\<close>

text \<open>
  Claim C6. Write the text of the stream as a part that is empty or ends with a
  newline, followed by a trailing part without newline. When the stream ends, the
  lines decoded are those of the first part and the trailing part is what the buffer
  holds; it is handed to nothing: the result of the function, its callbacks and its
  errors are those of the stream without the trailing part.
\<close>

theorem C6_trailing_partial_line_discarded:
  assumes "concat fragments = terminated @ trailing"
    and "newline \<notin> set trailing"
    and "terminated = [] \<or> last terminated = newline"
  shows "decodeAll [] fragments = (butlast (split newline terminated), trailing) \<and>
         generateCodeFromPrompt parse (okResponse fragments) =
           generateCodeFromPrompt parse (okResponse [terminated])"
proof -
  have sp: "split newline (terminated @ trailing) = butlast (split newline terminated) @ [trailing]"
    by (rule split_complete_partial[OF assms(2,3)])
  have d: "decodeAll [] fragments = (butlast (split newline terminated), trailing)"
    using decodeAll_eq[of "[]" fragments] assms(1) sp by simp
  have d1: "fst (decodeAll [] [terminated]) = butlast (split newline terminated)"
    using decodeAll_eq[of "[]" "[terminated]"] by simp
  have "readLoop parse initialAcc [] fragments = readLoop parse initialAcc [] [terminated]"
    unfolding readLoop_decodeAll using d d1 by simp
  then show ?thesis using d
    by (simp add: generateCodeFromPrompt_def okResponse_def)
qed


theorem C6_trailing_partial_line_discarded_witness:
  "concat [''data: '' @ payloadMarker, [newline] @ ''data: '' @ payloadNoMarker] =
     (''data: '' @ payloadMarker @ [newline]) @ (''data: '' @ payloadNoMarker) \<and>
   newline \<notin> set (''data: '' @ payloadNoMarker) \<and>
   last (''data: '' @ payloadMarker @ [newline]) = newline \<and>
   generateCodeFromPrompt exampleParse
     (okResponse [''data: '' @ payloadMarker, [newline] @ ''data: '' @ payloadNoMarker]) =
   Inr (\<lparr>files = [\<lparr>filename = ''App.tsx'', content = ''const x=1;''\<rparr>], preview_url = None\<rparr>,
        [[\<lparr>filename = ''App.tsx'', content = ''const x=1;''\<rparr>]])"
proof -
  let ?fs = "[''data: '' @ payloadMarker, [newline] @ ''data: '' @ payloadNoMarker]"
  let ?t = "''data: '' @ payloadMarker @ [newline]"
  let ?p = "''data: '' @ payloadNoMarker"
  have h1: "concat ?fs = ?t @ ?p" by simp
  have h2: "newline \<notin> set ?p"
    by (simp add: payloadNoMarker_def newline_def backslash_def)
  have h3: "last ?t = newline" by simp
  have h3': "?t = [] \<or> last ?t = newline" using h3 by blast
  have e: "generateCodeFromPrompt exampleParse (okResponse [?t]) =
      Inr (\<lparr>files = [\<lparr>filename = ''App.tsx'', content = ''const x=1;''\<rparr>], preview_url = None\<rparr>,
           [[\<lparr>filename = ''App.tsx'', content = ''const x=1;''\<rparr>]])"
    by code_simp
  from C6_trailing_partial_line_discarded[OF h1 h2 h3', of exampleParse]
  have "generateCodeFromPrompt exampleParse (okResponse ?fs) =
        generateCodeFromPrompt exampleParse (okResponse [?t])" by blast
  with e h1 h2 h3 show ?thesis by simp
qed


section \<open>The returned files and the last callback\<close>

text \<open>
  Claim C10. When the function returns normally and \<open>onProgress\<close> has been called at
  least once, the returned \<open>files\<close> array equals the argument of the last call.
\<close>

theorem C10_returned_files_equal_last_snapshot:
  assumes "generateCodeFromPrompt parse response = Inr (result, calls)"
    and "calls \<noteq> []"
  shows "files result = last calls"
proof -
  from assms(1) obtain fragments acc where
    r: "readLoop parse initialAcc [] fragments = Inr acc"
    and res: "result = \<lparr>files = toGeneratedFiles (table acc), preview_url = None\<rparr>"
    and c: "calls = emitted acc"
    by (auto simp: generateCodeFromPrompt_def split: if_splits option.splits sum.splits)
  from r have "processLines parse initialAcc (fst (decodeAll [] fragments)) = Inr acc"
    by (simp add: readLoop_decodeAll)
  from processLines_last_emitted[OF this] assms(2) c
  have "last (emitted acc) = toGeneratedFiles (table acc)"
    by (simp add: initialAcc_def)
  with res c show ?thesis by simp
qed

theorem C10_returned_files_equal_last_snapshot_witness:
  "generateCodeFromPrompt exampleParse
     (okResponse [''data: '' @ payloadMarker @ [newline], ''data: '' @ payloadSlash @ [newline]]) =
   Inr (\<lparr>files = [\<lparr>filename = ''App.tsx'', content = ''const x=1;''\<rparr>,
                  \<lparr>filename = ''src/App.tsx'', content = ''export {};''\<rparr>],
         preview_url = None\<rparr>,
        [[\<lparr>filename = ''App.tsx'', content = ''const x=1;''\<rparr>],
         [\<lparr>filename = ''App.tsx'', content = ''const x=1;''\<rparr>,
          \<lparr>filename = ''src/App.tsx'', content = ''export {};''\<rparr>]]) \<and>
   [[\<lparr>filename = ''App.tsx'', content = ''const x=1;''\<rparr>],
    [\<lparr>filename = ''App.tsx'', content = ''const x=1;''\<rparr>,
     \<lparr>filename = ''src/App.tsx'', content = ''export {};''\<rparr>]] \<noteq> [] \<and>
   files \<lparr>files = [\<lparr>filename = ''App.tsx'', content = ''const x=1;''\<rparr>,
                  \<lparr>filename = ''src/App.tsx'', content = ''export {};''\<rparr>],
         preview_url = None\<rparr> =
   last [[\<lparr>filename = ''App.tsx'', content = ''const x=1;''\<rparr>],
         [\<lparr>filename = ''App.tsx'', content = ''const x=1;''\<rparr>,
          \<lparr>filename = ''src/App.tsx'', content = ''export {};''\<rparr>]]"
proof -
  let ?calls = "[[\<lparr>filename = ''App.tsx'', content = ''const x=1;''\<rparr>],
         [\<lparr>filename = ''App.tsx'', content = ''const x=1;''\<rparr>,
          \<lparr>filename = ''src/App.tsx'', content = ''export {};''\<rparr>]]"
  let ?res = "\<lparr>files = [\<lparr>filename = ''App.tsx'', content = ''const x=1;''\<rparr>,
                  \<lparr>filename = ''src/App.tsx'', content = ''export {};''\<rparr>],
         preview_url = None\<rparr>"
  have h1: "generateCodeFromPrompt exampleParse
     (okResponse [''data: '' @ payloadMarker @ [newline], ''data: '' @ payloadSlash @ [newline]]) =
     Inr (?res, ?calls)"
    by code_simp
  have h2: "?calls \<noteq> []" by simp
  from C10_returned_files_equal_last_snapshot[OF h1 h2]
  have "files ?res = last ?calls" .
  with h1 h2 show ?thesis by blast
qed


section \<open>What one event appends\<close>

lemma drop1_split:
  "join [c] (drop (Suc 0) (split c s)) = drop (Suc 0) (dropWhile (\<lambda>x. x \<noteq> c) s)"
proof (induction s)
  case Nil
  show ?case by simp
next
  case (Cons x xs)
  obtain l ls where sp: "split c xs = l # ls"
    using split_ne[of c xs] by (cases "split c xs") auto
  show ?case
  proof (cases "x = c")
    case True
    then show ?thesis using join_split[of c xs] by simp
  next
    case False
    then show ?thesis using Cons sp by simp
  qed
qed

lemma mapGet_mapSet: "mapGet (mapSet m k v) k = Some v"
  by (induction m) (auto simp: mapGet_def)

text \<open>
  Whatever the first line of \<open>code\<close> is, \<open>accumulate\<close> appends the text after the
  first newline of \<open>code\<close> only.
\<close>

lemma accumulate_appends_after_first_line:
  "mapGet (table (accumulate acc name code)) name =
     Some ((case mapGet (table acc) name of None \<Rightarrow> [] | Some c \<Rightarrow> c) @
           drop 1 (dropWhile (\<lambda>x. x \<noteq> newline) code))"
  by (simp add: accumulate_def Let_def mapGet_mapSet drop1_split)

lemma hasFilenameComment_eq: "hasFilenameComment code = startsWith code ''//''"
proof (cases code)
  case Nil
  then show ?thesis
    by (simp add: hasFilenameComment_def firstLineOf_def startsWith_def Let_def)
next
  case (Cons a as)
  show ?thesis
  proof (cases as)
    case Nil
    with Cons show ?thesis
      by (auto simp: hasFilenameComment_def firstLineOf_def startsWith_def newline_def Let_def)
  next
    case (Cons b bs)
    obtain l ls where sp: "split newline bs = l # ls"
      using split_ne[of newline bs] by (cases "split newline bs") auto
    from Cons \<open>code = a # as\<close> sp show ?thesis
      by (auto simp: hasFilenameComment_def firstLineOf_def startsWith_def newline_def Let_def)
  qed
qed


text \<open>
  The two lines of the specification's example: the second event has no filename
  comment and the file \<open>typescript\<close>, and is discarded.
\<close>

lemma two_events_of_which_one_is_discarded:
  "generateCodeFromPrompt exampleParse
     (okResponse [''data: '' @ payloadMarker @ [newline],
                  ''data: '' @ payloadTypescript @ [newline]]) =
   Inr (\<lparr>files = [\<lparr>filename = ''App.tsx'', content = ''const x=1;''\<rparr>], preview_url = None\<rparr>,
        [[\<lparr>filename = ''App.tsx'', content = ''const x=1;''\<rparr>]])"
  by code_simp


section \<open>The first line of an event without filename comment\<close>

text \<open>
  Claim C1, at the input where the code departs from it. The stream is the one line
  \<^verbatim>\<open>data: {"code":"const a=1;\nconst b=2;","file":"src/a.ts"}\<close>. The first line of
  \<open>code\<close> is no filename comment and the filename is taken from \<open>file\<close>; the claim
  has the whole of \<open>code\<close> accumulated. The function returns the file \<open>src/a.ts\<close>
  with the content \<open>const b=2;\<close>: the first line \<open>const a=1;\<close> is gone.
\<close>

theorem C1_first_line_dropped_without_marker:
  "exampleParse payloadNoMarker =
     Some (JObject [(''code'', JString (''const a=1;'' @ [newline] @ ''const b=2;'')),
                    (''file'', JString ''src/a.ts'')]) \<and>
   \<not> hasFilenameComment (''const a=1;'' @ [newline] @ ''const b=2;'') \<and>
   generateCodeFromPrompt exampleParse (okResponse [''data: '' @ payloadNoMarker @ [newline]]) =
     Inr (\<lparr>files = [\<lparr>filename = ''src/a.ts'', content = ''const b=2;''\<rparr>], preview_url = None\<rparr>,
          [[\<lparr>filename = ''src/a.ts'', content = ''const b=2;''\<rparr>]])"
  by code_simp


section \<open>Payloads that end the stream\<close>

lemma applyChunk_error: "applyChunk acc chunk = Inl e \<Longrightarrow> e = parseFailure"
  by (auto simp: applyChunk_def Let_def split: json.splits option.splits if_splits)

lemma processLine_error: "processLine p acc line = Inl e \<Longrightarrow> e = parseFailure"
  by (auto simp: processLine_def dest: applyChunk_error split: option.splits)

lemma processLines_error: "processLines p acc ls = Inl (e, calls) \<Longrightarrow> e = parseFailure"
  by (induction ls arbitrary: acc) (auto dest: processLine_error split: sum.splits)

lemma processLine_rejected:
  assumes "dataPayload line = Some jsonStr" and "rejectedPayload parse jsonStr"
  shows "processLine parse acc line = Inl parseFailure"
proof (cases "parse jsonStr")
  case None
  then show ?thesis using assms(1) by (simp add: processLine_def)
next
  case (Some chunk)
  have "applyChunk acc chunk = Inl parseFailure"
    using assms(2) Some
    by (cases chunk)
       (auto simp: rejectedPayload_def applyChunk_def Let_def
             split: option.splits json.splits)
  then show ?thesis using assms(1) Some by (simp add: processLine_def)
qed

text \<open>
  Claim C3, amended. If a decoded line is a \<open>data: \<close> line whose payload is rejected
  (it is not JSON, or its \<open>code\<close> is not a string, or its \<open>file\<close> is not a string
  while the first line of \<open>code\<close> is no filename comment), the function fails with the
  error \<open>Failed to parse server response\<close>. No later line is processed: the outcome
  is that of the lines before it, whatever follows, and the callbacks are those the
  lines before it caused.
\<close>

theorem C3_rejected_payload_aborts_the_stream:
  assumes "ok response" and "body response = Some fragments"
    and "butlast (split newline (concat fragments)) = before @ line # after"
    and "dataPayload line = Some jsonStr"
    and "rejectedPayload parse jsonStr"
  shows "(\<exists>calls. generateCodeFromPrompt parse response = Inl (parseFailure, calls)) \<and>
         generateCodeFromPrompt parse response =
           (case processLines parse initialAcc before of
              Inl e \<Rightarrow> Inl e
            | Inr acc \<Rightarrow> Inl (parseFailure, emitted acc))"
proof -
  have d: "fst (decodeAll [] fragments) = before @ line # after"
    using decodeAll_eq[of "[]" fragments] assms(3) by simp
  have r: "readLoop parse initialAcc [] fragments =
      (case processLines parse initialAcc before of
         Inl e \<Rightarrow> Inl e
       | Inr acc \<Rightarrow> Inl (parseFailure, emitted acc))"
    unfolding readLoop_decodeAll d processLines_append
    using processLine_rejected[OF assms(4,5)]
    by (simp split: sum.splits)
  have g: "generateCodeFromPrompt parse response =
      (case processLines parse initialAcc before of
         Inl e \<Rightarrow> Inl e
       | Inr acc \<Rightarrow> Inl (parseFailure, emitted acc))"
    using assms(1,2) r
    by (simp add: generateCodeFromPrompt_def split: sum.splits)
  have "\<exists>calls. generateCodeFromPrompt parse response = Inl (parseFailure, calls)"
  proof (cases "processLines parse initialAcc before")
    case (Inl x)
    obtain e calls where x: "x = (e, calls)" by (cases x)
    with Inl processLines_error have "e = parseFailure" by blast
    with g Inl x show ?thesis by simp
  next
    case (Inr acc)
    with g show ?thesis by simp
  qed
  with g show ?thesis by blast
qed

theorem C3_rejected_payload_aborts_the_stream_witness:
  "ok (okResponse [''data: '' @ payloadMarker @ [newline],
                   ''data: '' @ payloadMalformed @ [newline] @ ''data: '' @ payloadSlash @ [newline]]) \<and>
   butlast (split newline (concat [''data: '' @ payloadMarker @ [newline],
                   ''data: '' @ payloadMalformed @ [newline] @ ''data: '' @ payloadSlash @ [newline]])) =
     [''data: '' @ payloadMarker] @ (''data: '' @ payloadMalformed) # [''data: '' @ payloadSlash] \<and>
   dataPayload (''data: '' @ payloadMalformed) = Some payloadMalformed \<and>
   rejectedPayload exampleParse payloadMalformed \<and>
   generateCodeFromPrompt exampleParse
     (okResponse [''data: '' @ payloadMarker @ [newline],
                  ''data: '' @ payloadMalformed @ [newline] @ ''data: '' @ payloadSlash @ [newline]]) =
     Inl (parseFailure, [[\<lparr>filename = ''App.tsx'', content = ''const x=1;''\<rparr>]])"
proof -
  let ?fs = "[''data: '' @ payloadMarker @ [newline],
              ''data: '' @ payloadMalformed @ [newline] @ ''data: '' @ payloadSlash @ [newline]]"
  have h1: "ok (okResponse ?fs)" by (simp add: okResponse_def)
  have h2: "body (okResponse ?fs) = Some ?fs" by (simp add: okResponse_def)
  have h3: "butlast (split newline (concat ?fs)) =
     [''data: '' @ payloadMarker] @ (''data: '' @ payloadMalformed) # [''data: '' @ payloadSlash]"
    by code_simp
  have h4: "dataPayload (''data: '' @ payloadMalformed) = Some payloadMalformed" by code_simp
  have h5: "rejectedPayload exampleParse payloadMalformed" by code_simp
  have e: "processLines exampleParse initialAcc [''data: '' @ payloadMarker] =
      Inr \<lparr>table = [(''App.tsx'', ''const x=1;'')],
           emitted = [[\<lparr>filename = ''App.tsx'', content = ''const x=1;''\<rparr>]]\<rparr>"
    by code_simp
  from C3_rejected_payload_aborts_the_stream[OF h1 h2 h3 h4 h5]
  have "generateCodeFromPrompt exampleParse (okResponse ?fs) =
     (case processLines exampleParse initialAcc [''data: '' @ payloadMarker] of
        Inl e \<Rightarrow> Inl e
      | Inr acc \<Rightarrow> Inl (parseFailure, emitted acc))" by blast
  then have "generateCodeFromPrompt exampleParse (okResponse ?fs) =
     Inl (parseFailure, [[\<lparr>filename = ''App.tsx'', content = ''const x=1;''\<rparr>]])"
    unfolding e by simp
  with h1 h3 h4 h5 show ?thesis by blast
qed

text \<open>
  Claim C3 as stated fails: the payload \<^verbatim>\<open>{"code":"// a.ts\nlet z;"}\<close> has no
  \<open>file\<close> field, so it is not of the shape \<open>{code, file}\<close>, and the function
  accumulates it and returns normally.
\<close>

theorem C3_marker_without_file_counterexample:
  "exampleParse payloadNoFile =
     Some (JObject [(''code'', JString (''// a.ts'' @ [newline] @ ''let z;''))]) \<and>
   \<not> isCodeChunkResponse (JObject [(''code'', JString (''// a.ts'' @ [newline] @ ''let z;''))]) \<and>
   generateCodeFromPrompt exampleParse (okResponse [''data: '' @ payloadNoFile @ [newline]]) =
     Inr (\<lparr>files = [\<lparr>filename = ''a.ts'', content = ''let z;''\<rparr>], preview_url = None\<rparr>,
          [[\<lparr>filename = ''a.ts'', content = ''let z;''\<rparr>]])"
  by code_simp


section \<open>Events the code discards\<close>

text \<open>
  Claim C4. An event whose \<open>file\<close> is \<open>typescript\<close> and whose first line of \<open>code\<close>
  does not start with \<open>//\<close> leaves the state as it is: the map is unchanged and
  \<open>onProgress\<close> is not called.
\<close>

theorem C4_typescript_without_marker_is_discarded:
  assumes "getProp chunk ''code'' = Some (JString code)"
    and "getProp chunk ''file'' = Some (JString ''typescript'')"
    and "\<not> startsWith (firstLineOf code) ''//''"
    and "dataPayload line = Some jsonStr"
    and "parse jsonStr = Some chunk"
  shows "applyChunk acc chunk = Inr acc \<and>
         processLine parse acc line = Inr acc \<and>
         processLines parse acc (line # rest) = processLines parse acc rest"
proof -
  have n: "\<not> hasFilenameComment code"
    using assms(3) by (simp add: hasFilenameComment_def)
  have c: "chunk \<noteq> JNull" using assms(1) by auto
  have a: "applyChunk acc chunk = Inr acc"
    using assms(1,2) n c by (cases chunk) (simp_all add: applyChunk_def)
  then have "processLine parse acc line = Inr acc"
    using assms(4,5) by (simp add: processLine_def)
  with a show ?thesis by simp
qed

theorem C4_typescript_without_marker_is_discarded_witness:
  "getProp (JObject [(''code'', JString ''const y=2;''), (''file'', JString ''typescript'')]) ''code''
     = Some (JString ''const y=2;'') \<and>
   getProp (JObject [(''code'', JString ''const y=2;''), (''file'', JString ''typescript'')]) ''file''
     = Some (JString ''typescript'') \<and>
   \<not> startsWith (firstLineOf ''const y=2;'') ''//'' \<and>
   dataPayload (''data: '' @ payloadTypescript) = Some payloadTypescript \<and>
   exampleParse payloadTypescript =
     Some (JObject [(''code'', JString ''const y=2;''), (''file'', JString ''typescript'')]) \<and>
   processLine exampleParse
     \<lparr>table = [(''App.tsx'', ''const x=1;'')],
      emitted = [[\<lparr>filename = ''App.tsx'', content = ''const x=1;''\<rparr>]]\<rparr>
     (''data: '' @ payloadTypescript) =
   Inr \<lparr>table = [(''App.tsx'', ''const x=1;'')],
        emitted = [[\<lparr>filename = ''App.tsx'', content = ''const x=1;''\<rparr>]]\<rparr>"
proof -
  let ?chunk = "JObject [(''code'', JString ''const y=2;''), (''file'', JString ''typescript'')]"
  let ?acc = "\<lparr>table = [(''App.tsx'', ''const x=1;'')],
      emitted = [[\<lparr>filename = ''App.tsx'', content = ''const x=1;''\<rparr>]]\<rparr>"
  have h1: "getProp ?chunk ''code'' = Some (JString ''const y=2;'')" by simp
  have h2: "getProp ?chunk ''file'' = Some (JString ''typescript'')" by simp
  have h3: "\<not> startsWith (firstLineOf ''const y=2;'') ''//''" by code_simp
  have h5: "dataPayload (''data: '' @ payloadTypescript) = Some payloadTypescript" by code_simp
  have h6: "exampleParse payloadTypescript = Some ?chunk" by code_simp
  from C4_typescript_without_marker_is_discarded
         [where parse = exampleParse and acc = ?acc and rest = "[]", OF h1 h2 h3 h5 h6]
  have "processLine exampleParse ?acc (''data: '' @ payloadTypescript) = Inr ?acc" by blast
  with h1 h2 h3 h5 h6 show ?thesis by blast
qed


section \<open>Filenames in the snapshots\<close>

lemma replaceLeadingSlash_eq:
  "replaceLeadingSlash name = (if startsWith name ''/'' then drop 1 name else name)"
  by (cases name) (auto simp: startsWith_def)

text \<open>
  Claim C5. The snapshot handed to \<open>onProgress\<close> when a line is applied, and the
  \<open>files\<close> array the function returns, list the entries of the map in its order,
  each with its content and with its filename less one leading \<open>/\<close> if it has one,
  unchanged otherwise.
\<close>

theorem C5_one_leading_slash_removed_in_every_snapshot:
  "(processLine parse acc line = Inr acc' \<and> acc' \<noteq> acc \<longrightarrow>
      emitted acc' = emitted acc @
        [map (\<lambda>(name, text).
                \<lparr>filename = (if startsWith name ''/'' then drop 1 name else name),
                 content = text\<rparr>) (table acc')]) \<and>
   (generateCodeFromPrompt parse response = Inr (result, calls) \<longrightarrow>
      (\<exists>fragments final.
          body response = Some fragments \<and>
          readLoop parse initialAcc [] fragments = Inr final \<and>
          calls = emitted final \<and>
          files result =
            map (\<lambda>(name, text).
                   \<lparr>filename = (if startsWith name ''/'' then drop 1 name else name),
                    content = text\<rparr>) (table final)))"
proof -
  have m: "toGeneratedFiles t =
      map (\<lambda>(name, text).
             \<lparr>filename = (if startsWith name ''/'' then drop 1 name else name),
              content = text\<rparr>) t" for t
    unfolding toGeneratedFiles_def replaceLeadingSlash_eq ..
  have a: "emitted acc' = emitted acc @ [toGeneratedFiles (table acc')]"
    if "processLine parse acc line = Inr acc'" "acc' \<noteq> acc"
    using processLine_emitted[OF that(1)] that(2) by blast
  have b: "\<exists>fragments final.
          body response = Some fragments \<and>
          readLoop parse initialAcc [] fragments = Inr final \<and>
          calls = emitted final \<and>
          files result = toGeneratedFiles (table final)"
    if "generateCodeFromPrompt parse response = Inr (result, calls)"
    using that
    by (auto simp: generateCodeFromPrompt_def split: if_splits option.splits sum.splits)
  show ?thesis using a b unfolding m by blast
qed


theorem C5_one_leading_slash_removed_in_every_snapshot_witness:
  "processLine exampleParse initialAcc (''data: '' @ payloadSlash) =
     Inr \<lparr>table = [(''/src/App.tsx'', ''export {};'')],
          emitted = [[\<lparr>filename = ''src/App.tsx'', content = ''export {};''\<rparr>]]\<rparr> \<and>
   \<lparr>table = [(''/src/App.tsx'', ''export {};'')],
    emitted = [[\<lparr>filename = ''src/App.tsx'', content = ''export {};''\<rparr>]]\<rparr> \<noteq> initialAcc \<and>
   generateCodeFromPrompt exampleParse (okResponse [''data: '' @ payloadSlash @ [newline]]) =
     Inr (\<lparr>files = [\<lparr>filename = ''src/App.tsx'', content = ''export {};''\<rparr>],
           preview_url = None\<rparr>,
          [[\<lparr>filename = ''src/App.tsx'', content = ''export {};''\<rparr>]]) \<and>
   readLoop exampleParse initialAcc [] [''data: '' @ payloadSlash @ [newline]] =
     Inr \<lparr>table = [(''/src/App.tsx'', ''export {};'')],
          emitted = [[\<lparr>filename = ''src/App.tsx'', content = ''export {};''\<rparr>]]\<rparr> \<and>
   [\<lparr>filename = ''src/App.tsx'', content = ''export {};''\<rparr>] =
     map (\<lambda>(name, text).
            \<lparr>filename = (if startsWith name ''/'' then drop 1 name else name), content = text\<rparr>)
         [(''/src/App.tsx'', ''export {};'')]"
proof -
  let ?acc' = "\<lparr>table = [(''/src/App.tsx'', ''export {};'')],
          emitted = [[\<lparr>filename = ''src/App.tsx'', content = ''export {};''\<rparr>]]\<rparr>"
  let ?res = "\<lparr>files = [\<lparr>filename = ''src/App.tsx'', content = ''export {};''\<rparr>],
           preview_url = None\<rparr>"
  let ?calls = "[[\<lparr>filename = ''src/App.tsx'', content = ''export {};''\<rparr>]]"
  let ?fs = "[''data: '' @ payloadSlash @ [newline]]"
  let ?m = "map (\<lambda>(name, text).
            \<lparr>filename = (if startsWith name ''/'' then drop 1 name else name), content = text\<rparr>)"
  have h1: "processLine exampleParse initialAcc (''data: '' @ payloadSlash) = Inr ?acc'"
    by code_simp
  have h2: "?acc' \<noteq> initialAcc" by (simp add: initialAcc_def)
  have h3: "generateCodeFromPrompt exampleParse (okResponse ?fs) = Inr (?res, ?calls)"
    by code_simp
  have h4: "readLoop exampleParse initialAcc [] ?fs = Inr ?acc'" by code_simp
  note t = C5_one_leading_slash_removed_in_every_snapshot
             [where parse = exampleParse and acc = initialAcc and acc' = ?acc'
                and line = "''data: '' @ payloadSlash" and response = "okResponse ?fs"
                and result = ?res and calls = ?calls]
  from t h1 h2 have "emitted ?acc' = emitted initialAcc @ [?m (table ?acc')]" by blast
  then have e: "[\<lparr>filename = ''src/App.tsx'', content = ''export {};''\<rparr>] =
      ?m [(''/src/App.tsx'', ''export {};'')]"
    by (simp add: initialAcc_def)
  from h1 h2 h3 h4 e show ?thesis by blast
qed


section \<open>Which lines reach the parser\<close>

lemma trim_last_not_space: "trim s \<noteq> [] \<Longrightarrow> \<not> isWhiteSpace (last (trim s))"
proof -
  assume a: "trim s \<noteq> []"
  let ?d = "dropWhile isWhiteSpace (rev (dropWhile isWhiteSpace s))"
  have ne: "?d \<noteq> []" using a by (simp add: trim_def)
  have "last (trim s) = hd ?d" using ne by (simp add: trim_def last_rev)
  moreover have "\<not> isWhiteSpace (hd ?d)" using ne by (rule hd_dropWhile)
  ultimately show ?thesis by simp
qed

lemma trim_nonempty:
  assumes "t \<noteq> []" and "\<not> isWhiteSpace (last t)"
  shows "trim t \<noteq> []"
proof -
  have "last t \<in> set t" using assms(1) by simp
  then have d: "dropWhile isWhiteSpace t \<noteq> []"
    using assms(2) by (auto simp: dropWhile_eq_Nil_conv)
  have "last (dropWhile isWhiteSpace t) = last t"
    using d assms(1)
    by (metis append_is_Nil_conv last_appendR takeWhile_dropWhile_id)
  then have "hd (rev (dropWhile isWhiteSpace t)) = last t"
    using d by (simp add: hd_rev)
  then have "dropWhile isWhiteSpace (rev (dropWhile isWhiteSpace t)) \<noteq> []"
    using d assms(2) by (cases "rev (dropWhile isWhiteSpace t)") auto
  then show ?thesis by (simp add: trim_def)
qed

lemma startsWith_iff: "startsWith s p = (\<exists>r. s = p @ r)"
  unfolding startsWith_def
  by (metis append_eq_conv_conj append_take_drop_id)

lemma payload_nonempty:
  assumes "startsWith (trim line) ''data: ''"
  shows "trim (drop 5 (trim line)) \<noteq> []"
proof -
  from assms obtain r where t: "trim line = ''data: '' @ r"
    unfolding startsWith_iff by blast
  then have ne: "trim line \<noteq> []" by simp
  have nw: "\<not> isWhiteSpace (last (trim line))" by (rule trim_last_not_space[OF ne])
  have r: "r \<noteq> []"
  proof
    assume "r = []"
    with t have "last (trim line) = CHR '' ''" by simp
    with nw show False by (simp add: isWhiteSpace_def)
  qed
  have d: "drop 5 (trim line) = CHR '' '' # r" using t by simp
  have "last (drop 5 (trim line)) = last (trim line)" using t r by simp
  with nw d show ?thesis by (intro trim_nonempty) simp_all
qed

text \<open>
  Claim C7, amended. A line reaches \<open>JSON.parse\<close> if and only if the line with the
  white space at both ends removed starts with \<open>data: \<close>; the payload is then the
  rest, trimmed, and is never empty. Any other line is skipped: the state is unchanged,
  nothing is called and nothing is thrown.
\<close>

theorem C7_forwarded_iff_trimmed_line_has_prefix:
  "(startsWith (trim line) ''data: '' \<longrightarrow>
      trim (drop 5 (trim line)) \<noteq> [] \<and>
      dataPayload line = Some (trim (drop 5 (trim line))) \<and>
      processLine parse acc line =
        (case parse (trim (drop 5 (trim line))) of
           None \<Rightarrow> Inl parseFailure
         | Some chunk \<Rightarrow> applyChunk acc chunk)) \<and>
   (\<not> startsWith (trim line) ''data: '' \<longrightarrow>
      dataPayload line = None \<and>
      processLine parse acc line = Inr acc \<and>
      processLines parse acc (line # rest) = processLines parse acc rest)"
proof -
  have a: "dataPayload line = Some (trim (drop 5 (trim line)))"
    if "startsWith (trim line) ''data: ''"
    using that payload_nonempty[OF that]
    by (auto simp: dataPayload_def Let_def startsWith_def)
  have b: "dataPayload line = None" if "\<not> startsWith (trim line) ''data: ''"
    using that by (simp add: dataPayload_def Let_def)
  show ?thesis
    using a b payload_nonempty[of line] by (auto simp: processLine_def)
qed

theorem C7_forwarded_iff_trimmed_line_has_prefix_witness:
  "startsWith (trim ('' data: '' @ payloadMarker @ [CHR 0x0D])) ''data: '' \<and>
   dataPayload ('' data: '' @ payloadMarker @ [CHR 0x0D]) = Some payloadMarker \<and>
   \<not> startsWith (trim ''event: message'') ''data: '' \<and>
   processLine exampleParse initialAcc ''event: message'' = Inr initialAcc"
proof -
  have h1: "startsWith (trim ('' data: '' @ payloadMarker @ [CHR 0x0D])) ''data: ''"
    by code_simp
  have h2: "\<not> startsWith (trim ''event: message'') ''data: ''"
    by code_simp
  have e: "trim (drop 5 (trim ('' data: '' @ payloadMarker @ [CHR 0x0D]))) = payloadMarker"
    by code_simp
  from C7_forwarded_iff_trimmed_line_has_prefix
         [where line = "'' data: '' @ payloadMarker @ [CHR 0x0D]"] h1
  have "dataPayload ('' data: '' @ payloadMarker @ [CHR 0x0D]) =
        Some (trim (drop 5 (trim ('' data: '' @ payloadMarker @ [CHR 0x0D]))))"
    by blast
  then have a: "dataPayload ('' data: '' @ payloadMarker @ [CHR 0x0D]) = Some payloadMarker"
    unfolding e .
  from C7_forwarded_iff_trimmed_line_has_prefix
         [where line = "''event: message''" and parse = exampleParse and acc = initialAcc] h2
  have b: "processLine exampleParse initialAcc ''event: message'' = Inr initialAcc"
    by blast
  from h1 a h2 b show ?thesis by blast
qed

text \<open>
  Claim C7 as stated fails: a line with a space before \<open>data: \<close> does not have the
  prefix \<open>data: \<close>, and it is forwarded and accumulated.
\<close>

theorem C7_leading_space_counterexample:
  "\<not> startsWith ('' data: '' @ payloadMarker) ''data: '' \<and>
   dataPayload ('' data: '' @ payloadMarker) = Some payloadMarker \<and>
   processLine exampleParse initialAcc ('' data: '' @ payloadMarker) =
     Inr \<lparr>table = [(''App.tsx'', ''const x=1;'')],
          emitted = [[\<lparr>filename = ''App.tsx'', content = ''const x=1;''\<rparr>]]\<rparr>"
  by code_simp


section \<open>A response without success status\<close>

text \<open>
  Claim C8, amended. When the status is not a success, the function throws before it
  reads the body: no callback is made and the body makes no difference. The message
  of the error is the value of the field \<open>detail\<close> of the JSON body when the body is
  an object that has this field with a non-empty string as its value; when the field
  is absent or its value is falsy, the message is the text
  \<open>Failed to generate code: \<close> followed by the status text. Nothing is said
  about the message for a truthy \<open>detail\<close> that is no string.
\<close>

theorem C8_http_error_message:
  assumes "\<not> ok response"
  shows "(\<exists>e. generateCodeFromPrompt parse response = Inl (e, [])) \<and>
         generateCodeFromPrompt parse (response\<lparr>body := anyBody\<rparr>) =
           generateCodeFromPrompt parse response \<and>
         (\<forall>fields message.
            jsonBody response = Some (JObject fields) \<and>
            map_of fields ''detail'' = Some (JString message) \<and> message \<noteq> [] \<longrightarrow>
            generateCodeFromPrompt parse response = Inl (Error message, [])) \<and>
         ((\<forall>fields detail.
             jsonBody response = Some (JObject fields) \<and>
             map_of fields ''detail'' = Some detail \<longrightarrow> \<not> truthy detail) \<longrightarrow>
            generateCodeFromPrompt parse response =
              Inl (Error (''Failed to generate code: '' @ statusText response), []))"
proof -
  have g: "generateCodeFromPrompt parse r = Inl (httpError r, [])"
    if "\<not> ok r" for r
    using that by (simp add: generateCodeFromPrompt_def)
  have b: "httpError (response\<lparr>body := anyBody\<rparr>) = httpError response"
    by (simp add: httpError_def)
  have d: "httpError response = Error message"
    if "jsonBody response = Some (JObject fields)"
       "map_of fields ''detail'' = Some (JString message)" "message \<noteq> []" for fields message
    using that by (simp add: httpError_def)
  have f: "httpError response = Error (''Failed to generate code: '' @ statusText response)"
    if "\<forall>fields detail.
             jsonBody response = Some (JObject fields) \<and>
             map_of fields ''detail'' = Some detail \<longrightarrow> \<not> truthy detail"
  proof (cases "jsonBody response")
    case None
    then show ?thesis by (simp add: httpError_def)
  next
    case (Some v)
    then show ?thesis using that
      by (cases v) (auto simp: httpError_def Let_def split: option.splits)
  qed
  show ?thesis using g[OF assms] g[of "response\<lparr>body := anyBody\<rparr>"] assms b d f
    by auto
qed

theorem C8_http_error_message_witness:
  "\<not> ok \<lparr>ok = False, statusText = ''Too Many Requests'',
          jsonBody = Some (JObject [(''detail'', JString ''Rate limit exceeded'')]),
          body = None\<rparr> \<and>
   ''Rate limit exceeded'' \<noteq> [] \<and>
   generateCodeFromPrompt exampleParse
     \<lparr>ok = False, statusText = ''Too Many Requests'',
      jsonBody = Some (JObject [(''detail'', JString ''Rate limit exceeded'')]),
      body = None\<rparr> =
     Inl (Error ''Rate limit exceeded'', []) \<and>
   generateCodeFromPrompt exampleParse
     \<lparr>ok = False, statusText = ''Bad Gateway'', jsonBody = None,
      body = Some [''data: '' @ payloadMarker @ [newline]]\<rparr> =
     Inl (Error ''Failed to generate code: Bad Gateway'', [])"
proof -
  let ?q = "\<lparr>ok = False, statusText = ''Bad Gateway'', jsonBody = None,
      body = Some [''data: '' @ payloadMarker @ [newline]]\<rparr>"
  have q1: "\<not> ok ?q" by simp
  have q2: "\<forall>fields detail.
      jsonBody ?q = Some (JObject fields) \<and> map_of fields ''detail'' = Some detail \<longrightarrow>
      \<not> truthy detail" by simp
  from C8_http_error_message[OF q1, of exampleParse None] q2
  have "generateCodeFromPrompt exampleParse ?q =
        Inl (Error (''Failed to generate code: '' @ statusText ?q), [])" by blast
  then have f: "generateCodeFromPrompt exampleParse ?q =
        Inl (Error ''Failed to generate code: Bad Gateway'', [])" by simp
  let ?r = "\<lparr>ok = False, statusText = ''Too Many Requests'',
          jsonBody = Some (JObject [(''detail'', JString ''Rate limit exceeded'')]),
          body = None\<rparr>"
  have h1: "\<not> ok ?r" by simp
  have h2: "jsonBody ?r = Some (JObject [(''detail'', JString ''Rate limit exceeded'')])"
    by simp
  have h3: "map_of [(''detail'', JString ''Rate limit exceeded'')] ''detail'' =
            Some (JString ''Rate limit exceeded'')" by simp
  have h4: "''Rate limit exceeded'' \<noteq> []" by simp
  from C8_http_error_message[OF h1, of exampleParse None] h2 h3 h4
  have "generateCodeFromPrompt exampleParse ?r = Inl (Error ''Rate limit exceeded'', [])"
    by blast
  with h1 h4 f show ?thesis by blast
qed

text \<open>
  Claim C8 as stated fails: without \<open>detail\<close> the message is not the status text
  but the status text behind \<open>Failed to generate code: \<close>.
\<close>

theorem C8_status_text_counterexample:
  "generateCodeFromPrompt exampleParse
     \<lparr>ok = False, statusText = ''Not Found'', jsonBody = Some (JObject []),
      body = Some [''data: '' @ payloadMarker @ [newline]]\<rparr> =
     Inl (Error ''Failed to generate code: Not Found'', []) \<and>
   generateCodeFromPrompt exampleParse
     \<lparr>ok = False, statusText = ''Not Found'', jsonBody = Some (JObject []),
      body = Some [''data: '' @ payloadMarker @ [newline]]\<rparr> \<noteq>
     Inl (Error ''Not Found'', [])"
  by code_simp

text \<open>
  A \<open>detail\<close> that is a list of objects is handed to \<open>new Error\<close> as it is; the
  message is then its conversion to text, not the value.
\<close>

lemma non_string_detail_is_converted:
  "generateCodeFromPrompt exampleParse
     \<lparr>ok = False, statusText = ''Unprocessable Entity'',
      jsonBody = Some (JObject [(''detail'', JArray [JObject [(''msg'', JString ''field required'')]])]),
      body = None\<rparr> =
   Inl (ErrorOfValue (JArray [JObject [(''msg'', JString ''field required'')]]), [])"
  by code_simp


section \<open>The exported archive\<close>

lemma folderAdd_cases:
  "folderAdd z name n = z n \<or> (z n = None \<and> folderAdd z name n = Some FolderEntry)"
proof (induction z name rule: folderAdd.induct)
  case (1 z name)
  let ?folder = "forceTrailingSlash name"
  let ?parent = "parentFolder ?folder"
  show ?case
  proof (cases "z ?folder \<noteq> None")
    case True
    then show ?thesis by (simp add: folderAdd.simps[of z name])
  next
    case False
    show ?thesis
    proof (cases "?parent = []")
      case True
      with False show ?thesis by (auto simp: folderAdd.simps[of z name] Let_def)
    next
      case nonempty: False
      from "1.IH"[OF refl False refl nonempty] False nonempty
      show ?thesis by (auto simp: folderAdd.simps[of z name] Let_def)
    qed
  qed
qed

lemma forceTrailingSlash_last:
  "forceTrailingSlash name \<noteq> [] \<and> last (forceTrailingSlash name) = CHR ''/''"
  by (simp add: forceTrailingSlash_def)

lemma folderAdd_folder_names:
  "folderAdd z name n = Some FolderEntry \<Longrightarrow>
   z n = Some FolderEntry \<or> (n \<noteq> [] \<and> last n = CHR ''/'')"
proof (induction z name rule: folderAdd.induct)
  case (1 z name)
  let ?folder = "forceTrailingSlash name"
  let ?parent = "parentFolder ?folder"
  show ?case
  proof (cases "z ?folder \<noteq> None")
    case True
    with "1.prems" show ?thesis by (simp add: folderAdd.simps[of z name])
  next
    case False
    show ?thesis
    proof (cases "n = ?folder")
      case True
      then show ?thesis using forceTrailingSlash_last[of name] by simp
    next
      case other: False
      show ?thesis
      proof (cases "?parent = []")
        case True
        with False other "1.prems" show ?thesis
          by (auto simp: folderAdd.simps[of z name] Let_def)
      next
        case nonempty: False
        from False other nonempty "1.prems"
        have "folderAdd z ?parent n = Some FolderEntry"
          by (auto simp: folderAdd.simps[of z name] Let_def)
        from "1.IH"[OF refl False refl nonempty this] show ?thesis .
      qed
    qed
  qed
qed

lemma zipFile_file_entry:
  "(zipFile z name data n = Some (FileEntry d)) =
     (if n = name then data = d else z n = Some (FileEntry d))"
  using folderAdd_cases[of z "parentFolder name" n]
  by (auto simp: zipFile_def Let_def)

lemma zipFile_folder_names:
  "zipFile z name data n = Some FolderEntry \<Longrightarrow>
   z n = Some FolderEntry \<or> (n \<noteq> [] \<and> last n = CHR ''/'')"
  using folderAdd_folder_names[of z "parentFolder name" n]
  by (auto simp: zipFile_def Let_def split: if_splits)

lemma fold_file_entry:
  "(fold (\<lambda>file z. if filename file \<noteq> ''status.log''
                      then zipFile z (filename file) (content file) else z) fs z0 n
      = Some (FileEntry d)) =
   (if n = ''status.log'' then z0 n = Some (FileEntry d)
    else (case map_of (rev (map (\<lambda>file. (filename file, content file)) fs)) n of
            None \<Rightarrow> z0 n = Some (FileEntry d)
          | Some data \<Rightarrow> data = d))"
proof (induction fs rule: rev_induct)
  case Nil
  show ?case by simp
next
  case (snoc f fs)
  show ?case
  proof (cases "filename f = ''status.log''")
    case True
    then show ?thesis using snoc by auto
  next
    case False
    then show ?thesis using snoc by (auto simp: zipFile_file_entry)
  qed
qed

lemma fold_folder_names:
  "fold (\<lambda>file z. if filename file \<noteq> ''status.log''
                     then zipFile z (filename file) (content file) else z) fs z0 n
      = Some FolderEntry \<Longrightarrow>
   z0 n = Some FolderEntry \<or> (n \<noteq> [] \<and> last n = CHR ''/'')"
proof (induction fs arbitrary: n rule: rev_induct)
  case Nil
  then show ?case by simp
next
  case (snoc f fs)
  then show ?case by (auto dest: zipFile_folder_names split: if_splits)
qed

text \<open>
  Claim C9, amended. The file entries of the exported archive are exactly these: under
  every filename of the list that is neither \<open>status.log\<close> nor empty, one entry, with
  the content of the last file of that name in the list. The archive has no entry
  \<open>status.log\<close>, and any other entry it has is a folder, under a name that ends
  with \<open>/\<close>. When the filenames of the list are pairwise distinct, every file whose
  filename is neither \<open>status.log\<close> nor empty is in the archive under its own
  filename, and the entry holds the string that is the file's content, so that its
  bytes are those of the accumulated content, byte for byte.
\<close>

theorem C9_archive_file_entries:
  "(handleDownload fs name = Some (FileEntry data)) =
     (name \<noteq> [] \<and> name \<noteq> ''status.log'' \<and>
      map_of (rev (map (\<lambda>file. (filename file, content file)) fs)) name = Some data) \<and>
   handleDownload fs ''status.log'' = None \<and>
   (handleDownload fs name = Some FolderEntry \<longrightarrow> name \<noteq> [] \<and> last name = CHR ''/'') \<and>
   (distinct (map filename fs) \<longrightarrow>
      (\<forall>file \<in> set fs. filename file \<noteq> ''status.log'' \<and> filename file \<noteq> [] \<longrightarrow>
          handleDownload fs (filename file) = Some (FileEntry (content file))))"
proof -
  let ?kv = "\<lambda>file. (filename file, content file)"
  let ?step = "\<lambda>file z. if filename file \<noteq> ''status.log''
                           then zipFile z (filename file) (content file) else z"
  have e: "(handleDownload fs n = Some (FileEntry d)) =
     (n \<noteq> [] \<and> n \<noteq> ''status.log'' \<and> map_of (rev (map ?kv fs)) n = Some d)" for n d
    unfolding handleDownload_def generateAsync_def
    using fold_file_entry[of fs Map.empty n d]
    by (auto split: option.splits)
  have f: "n \<noteq> [] \<and> last n = CHR ''/''" if "handleDownload fs n = Some FolderEntry" for n
    using that fold_folder_names[of fs Map.empty n]
    by (auto simp: handleDownload_def generateAsync_def split: if_splits)
  have s: "handleDownload fs ''status.log'' = None"
  proof (cases "handleDownload fs ''status.log''")
    case None
    then show ?thesis .
  next
    case (Some entry)
    show ?thesis
    proof (cases entry)
      case (FileEntry d)
      with Some e[of "''status.log''" d] show ?thesis by simp
    next
      case FolderEntry
      with Some f[of "''status.log''"] show ?thesis by simp
    qed
  qed
  have k: "map fst (rev (map ?kv fs)) = rev (map filename fs)"
    by (simp add: rev_map comp_def)
  have c: "handleDownload fs (filename g) = Some (FileEntry (content g))"
    if "distinct (map filename fs)" "g \<in> set fs"
       "filename g \<noteq> ''status.log''" "filename g \<noteq> []" for g
  proof -
    have "distinct (map fst (rev (map ?kv fs)))" using that(1) unfolding k by simp
    moreover have "(filename g, content g) \<in> set (rev (map ?kv fs))"
      using that(2) by auto
    ultimately have "map_of (rev (map ?kv fs)) (filename g) = Some (content g)"
      by (rule map_of_is_SomeI)
    then show ?thesis using e that(3,4) by simp
  qed
  show ?thesis using e s f c by blast
qed

theorem C9_archive_file_entries_witness:
  "distinct (map filename [\<lparr>filename = ''src/App.tsx'', content = ''export {};''\<rparr>,
                          \<lparr>filename = ''status.log'', content = ''ready''\<rparr>]) \<and>
   \<lparr>filename = ''src/App.tsx'', content = ''export {};''\<rparr> \<in>
     set [\<lparr>filename = ''src/App.tsx'', content = ''export {};''\<rparr>,
          \<lparr>filename = ''status.log'', content = ''ready''\<rparr>] \<and>
   ''src/App.tsx'' \<noteq> ''status.log'' \<and> ''src/App.tsx'' \<noteq> [] \<and>
   handleDownload [\<lparr>filename = ''src/App.tsx'', content = ''export {};''\<rparr>,
                   \<lparr>filename = ''status.log'', content = ''ready''\<rparr>] ''src/App.tsx'' =
     Some (FileEntry ''export {};'') \<and>
   handleDownload [\<lparr>filename = ''src/App.tsx'', content = ''export {};''\<rparr>,
                   \<lparr>filename = ''status.log'', content = ''ready''\<rparr>] ''status.log'' = None \<and>
   handleDownload [\<lparr>filename = ''src/App.tsx'', content = ''export {};''\<rparr>,
                   \<lparr>filename = ''status.log'', content = ''ready''\<rparr>] ''src/'' =
     Some FolderEntry \<and>
   last ''src/'' = CHR ''/''"
proof -
  let ?f = "\<lparr>filename = ''src/App.tsx'', content = ''export {};''\<rparr>"
  let ?fs = "[?f, \<lparr>filename = ''status.log'', content = ''ready''\<rparr>]"
  have h1: "distinct (map filename ?fs)" by simp
  have h2: "?f \<in> set ?fs" by simp
  have h3: "''src/App.tsx'' \<noteq> ''status.log''" by simp
  have h4: "''src/App.tsx'' \<noteq> []" by simp
  have h34: "filename ?f \<noteq> ''status.log'' \<and> filename ?f \<noteq> []" by simp
  have h5: "handleDownload ?fs ''src/'' = Some FolderEntry" by code_simp
  note t = C9_archive_file_entries[of ?fs]
  from t h1 h2 h34 have "handleDownload ?fs (filename ?f) = Some (FileEntry (content ?f))"
    by blast
  then have a: "handleDownload ?fs ''src/App.tsx'' = Some (FileEntry ''export {};'')" by simp
  from t have b: "handleDownload ?fs ''status.log'' = None" by blast
  from t[of "''src/''"] h5 have "''src/'' \<noteq> [] \<and> last ''src/'' = CHR ''/''" by blast
  then have c: "last ''src/'' = CHR ''/''" by blast
  from h1 h2 h3 h4 a b h5 c show ?thesis by blast
qed

text \<open>
  Claim C9 as stated fails on a list with a repeated filename, where the second call
  of \<open>zip.file\<close> replaces the entry of the first file, and on a file with the empty
  filename, which \<open>generateAsync\<close> does not write.
\<close>

theorem C9_repeated_or_empty_filename_counterexample:
  "\<lparr>filename = ''a.ts'', content = ''first''\<rparr> \<in>
     set [\<lparr>filename = ''a.ts'', content = ''first''\<rparr>,
          \<lparr>filename = ''a.ts'', content = ''second''\<rparr>] \<and>
   ''a.ts'' \<noteq> ''status.log'' \<and>
   handleDownload [\<lparr>filename = ''a.ts'', content = ''first''\<rparr>,
                   \<lparr>filename = ''a.ts'', content = ''second''\<rparr>] ''a.ts'' =
     Some (FileEntry ''second'') \<and>
   handleDownload [\<lparr>filename = ''a.ts'', content = ''first''\<rparr>,
                   \<lparr>filename = ''a.ts'', content = ''second''\<rparr>] ''a.ts'' \<noteq>
     Some (FileEntry ''first'') \<and>
   [] \<noteq> ''status.log'' \<and>
   handleDownload [\<lparr>filename = [], content = ''let q;''\<rparr>] [] = None"
  by code_simp

text \<open>
  Such lists are ones the generation function returns: the keys \<open>App.tsx\<close> and
  \<open>/App.tsx\<close> are different entries of the map and both are emitted as \<open>App.tsx\<close>,
  and the filename comment \<open>//\<close> names the empty filename.
\<close>

lemma generated_files_can_repeat_a_filename:
  "generateCodeFromPrompt exampleParse
     (okResponse [''data: '' @ payloadMarker @ [newline] @ ''data: '' @ payloadSlashApp @ [newline]]) =
   Inr (\<lparr>files = [\<lparr>filename = ''App.tsx'', content = ''const x=1;''\<rparr>,
                  \<lparr>filename = ''App.tsx'', content = ''import React;''\<rparr>],
         preview_url = None\<rparr>,
        [[\<lparr>filename = ''App.tsx'', content = ''const x=1;''\<rparr>],
         [\<lparr>filename = ''App.tsx'', content = ''const x=1;''\<rparr>,
          \<lparr>filename = ''App.tsx'', content = ''import React;''\<rparr>]])"
  by code_simp

lemma generated_files_can_have_the_empty_filename:
  "generateCodeFromPrompt exampleParse
     (okResponse [''data: '' @ payloadEmptyName @ [newline]]) =
   Inr (\<lparr>files = [\<lparr>filename = [], content = ''let q;''\<rparr>], preview_url = None\<rparr>,
        [[\<lparr>filename = [], content = ''let q;''\<rparr>]])"
  by code_simp

end
